theory Spec2Isabelle
  imports Complex_Main "HOL-Library.AList"
begin

section \<open>The challenge tracking engine of the fitness bot\<close>

text \<open>
  A shallow embedding of class \<open>FitnessChallengeBot\<close> and of \<open>send_daily_reminders\<close> in
  \<^verbatim>\<open>SportChallangeDerevo_upgrade_bot.py\<close>.

  \<^item> Python's \<open>int\<close> is \<open>int\<close>; a Python \<open>float\<close> is idealised as a \<open>real\<close> (the rounding
    and the range of IEEE doubles are not modelled).
  \<^item> A naive \<open>datetime\<close> is the number of microseconds since \<open>datetime.min\<close>
    (0001-01-01T00:00:00); the type is bounded by \<open>datetime.max\<close> (the end of year 9999)
    and arithmetic that leaves the range raises \<open>OverflowError\<close>, as in Python.
    \<open>isoformat\<close> followed by \<open>fromisoformat\<close> is the identity, so a stored date is the
    instant itself.
  \<^item> Every \<open>datetime.now()\<close> of one call is the single argument \<open>now\<close>.
  \<^item> A \<open>dict\<close> is an association list in insertion order; \<open>d[k] = v\<close> is
    \<open>AList.update k v d\<close> (in place for a present key, appended for a new one) and a
    lookup is \<open>map_of d k\<close>.
  \<^item> \<open>save_data\<close> writes a file and swallows its own errors; it has no effect on the
    in-memory store and is left out.
\<close>

subsection \<open>Enumerations and errors\<close>

datatype ExerciseType = PUSHUPS | SQUATS | PULLUPS | SITUPS | BURPEES | PLANKS

datatype ChallengeStatus = ACTIVE | COMPLETED | PAUSED | FAILED

datatype error = ZeroDivisionError | OverflowError

subsection \<open>Dates and durations\<close>

type_synonym datetime = int

definition us_per_day :: int where
  "us_per_day = 86400000000"

definition datetime_max :: datetime where
  "datetime_max = 3652059 * us_per_day - 1"

definition valid_datetime :: "datetime \<Rightarrow> bool" where
  "valid_datetime t \<longleftrightarrow> 0 \<le> t \<and> t \<le> datetime_max"

text \<open>\<open>strftime('%Y-%m-%d')\<close>: the calendar day, here its number since 0001-01-01.\<close>

definition date_key :: "datetime \<Rightarrow> int" where
  "date_key t = t div us_per_day"

text \<open>\<open>strftime('%Y%m%d_%H%M%S')\<close>: the instant cut to the second.\<close>

definition second_key :: "datetime \<Rightarrow> int" where
  "second_key t = t div 1000000"

text \<open>\<open>(a - b).days\<close> of two datetimes: a timedelta is normalised with a non-negative
  remainder, so \<open>.days\<close> is the floor.\<close>

definition diff_days :: "datetime \<Rightarrow> datetime \<Rightarrow> int" where
  "diff_days a b = (a - b) div us_per_day"

text \<open>Python's \<open>round\<close> and the format \<open>:.0f\<close>: to the nearest integer, ties to even.\<close>

definition py_round :: "real \<Rightarrow> int" where
  "py_round x =
     (let f = \<lfloor>x\<rfloor>; d = x - of_int f
      in if d < 1 / 2 then f
         else if 1 / 2 < d then f + 1
         else if even f then f else f + 1)"

text \<open>A \<open>timedelta\<close> is a number of microseconds whose whole days are at most
  999999999 in magnitude.\<close>

definition timedelta_us :: "int \<Rightarrow> error + int" where
  "timedelta_us us =
     (if us div us_per_day < - 999999999 \<or> 999999999 < us div us_per_day
      then Inl OverflowError else Inr us)"

text \<open>\<open>timedelta(days=d)\<close> for an \<open>int\<close> and for a \<open>float\<close>.\<close>

definition timedelta_days_int :: "int \<Rightarrow> error + int" where
  "timedelta_days_int d = timedelta_us (d * us_per_day)"

definition timedelta_days_float :: "real \<Rightarrow> error + int" where
  "timedelta_days_float x = timedelta_us (py_round (x * of_int us_per_day))"

text \<open>\<open>datetime + timedelta\<close>.\<close>

definition datetime_add :: "datetime \<Rightarrow> int \<Rightarrow> error + datetime" where
  "datetime_add t us =
     (if 0 \<le> t + us \<and> t + us \<le> datetime_max then Inr (t + us) else Inl OverflowError)"

subsection \<open>Challenges, user data and the store\<close>

text \<open>A challenge id is \<open>f"{exercise.name}_{now:%Y%m%d_%H%M%S}"\<close>; the string is
  determined by, and determines, the pair it is formatted from.\<close>

type_synonym cid = "ExerciseType \<times> int"

record Challenge =
  id' :: cid
  exercise :: ExerciseType
  total_reps :: int
  target_days :: int
  current_reps :: int
  start_date :: datetime
  target_date :: datetime
  status :: ChallengeStatus
  daily_records :: "(int \<times> int) list"
  daily_target :: real
  completion_date :: "datetime option"

record UserData =
  challenges :: "(cid \<times> Challenge) list"
  timezone :: string
  reminder_times :: "string \<times> string"
  reminders_enabled :: bool

type_synonym store = "(string \<times> UserData) list"

definition default_user_data :: UserData where
  "default_user_data =
     \<lparr>challenges = [], timezone = ''UTC'', reminder_times = (''09:00'', ''20:00''),
      reminders_enabled = True\<rparr>"

subsection \<open>FitnessChallengeBot\<close>

definition get_user_data :: "store \<Rightarrow> string \<Rightarrow> store \<times> UserData" where
  "get_user_data s user_id =
     (case map_of s user_id of
        Some ud \<Rightarrow> (s, ud)
      | None \<Rightarrow> (AList.update user_id default_user_data s, default_user_data))"

text \<open>\<open>user_data['challenges'][k] = c\<close> on the profile that \<open>get_user_data\<close> returned
  (a reference into the store).\<close>

definition set_challenge :: "store \<Rightarrow> string \<Rightarrow> UserData \<Rightarrow> cid \<Rightarrow> Challenge \<Rightarrow> store" where
  "set_challenge s user_id ud k c =
     AList.update user_id (ud\<lparr>challenges := AList.update k c (challenges ud)\<rparr>) s"

definition create_challenge ::
  "store \<Rightarrow> string \<Rightarrow> ExerciseType \<Rightarrow> int \<Rightarrow> int \<Rightarrow> datetime \<Rightarrow> store \<times> (error + cid)" where
  "create_challenge s user_id ex treps days now =
     (let (s1, ud) = get_user_data s user_id;
          challenge_id = (ex, second_key now)
      in case timedelta_days_int days of
           Inl e \<Rightarrow> (s1, Inl e)
         | Inr delta \<Rightarrow>
             (case datetime_add now delta of
                Inl e \<Rightarrow> (s1, Inl e)
              | Inr target \<Rightarrow>
                  if days = 0 then (s1, Inl ZeroDivisionError)
                  else
                    (set_challenge s1 user_id ud challenge_id
                       \<lparr>id' = challenge_id, exercise = ex, total_reps = treps,
                        target_days = days, current_reps = 0, start_date = now,
                        target_date = target, status = ACTIVE, daily_records = [],
                        daily_target = of_int treps / of_int days,
                        completion_date = None\<rparr>,
                     Inr challenge_id)))"

text \<open>\<open>d.get(k, 0)\<close>.\<close>

definition get_or_zero :: "(int \<times> int) list \<Rightarrow> int \<Rightarrow> int" where
  "get_or_zero d k = (case map_of d k of None \<Rightarrow> 0 | Some v \<Rightarrow> v)"

text \<open>The body of \<open>add_reps\<close> on the challenge it found.\<close>

definition log_reps :: "Challenge \<Rightarrow> int \<Rightarrow> datetime \<Rightarrow> Challenge" where
  "log_reps c reps now =
     (let c1 = c\<lparr>current_reps := current_reps c + reps\<rparr>;
          today = date_key now;
          r0 = (if today \<notin> fst ` set (daily_records c1)
                then AList.update today 0 (daily_records c1) else daily_records c1);
          c2 = c1\<lparr>daily_records := AList.update today (get_or_zero r0 today + reps) r0\<rparr>
      in if total_reps c2 \<le> current_reps c2
         then c2\<lparr>status := COMPLETED, completion_date := Some now\<rparr>
         else c2)"

definition add_reps :: "store \<Rightarrow> string \<Rightarrow> cid \<Rightarrow> int \<Rightarrow> datetime \<Rightarrow> store \<times> bool" where
  "add_reps s user_id challenge_id reps now =
     (let (s1, ud) = get_user_data s user_id
      in case map_of (challenges ud) challenge_id of
           None \<Rightarrow> (s1, False)
         | Some c \<Rightarrow> (set_challenge s1 user_id ud challenge_id (log_reps c reps now), True))"

record Progress =
  challenge :: Challenge
  percentage :: real
  days_elapsed :: int
  days_remaining :: int
  actual_daily_avg :: real
  needed_daily_avg :: real
  projected_date :: "datetime option"
  on_track :: bool

text \<open>The projected completion date: \<open>now + timedelta(days=remaining / avg)\<close> when the
  average is positive, \<open>None\<close> otherwise.\<close>

definition projection :: "Challenge \<Rightarrow> real \<Rightarrow> datetime \<Rightarrow> error + datetime option" where
  "projection c avg now =
     (if 0 < avg
      then (case timedelta_days_float (of_int (total_reps c - current_reps c) / avg) of
              Inl e \<Rightarrow> Inl e
            | Inr delta \<Rightarrow>
                (case datetime_add now delta of Inl e \<Rightarrow> Inl e | Inr t \<Rightarrow> Inr (Some t)))
      else Inr None)"

text \<open>The body of \<open>get_challenge_progress\<close> on the challenge it found.\<close>

definition challenge_progress :: "Challenge \<Rightarrow> datetime \<Rightarrow> error + Progress" where
  "challenge_progress c now =
     (let de = diff_days now (start_date c) + 1;
          dr = diff_days (target_date c) now;
          avg = (if 0 < de then of_int (current_reps c) / of_int de else 0);
          needed = of_int (total_reps c - current_reps c) / of_int (max dr 1)
      in case projection c avg now of
           Inl e \<Rightarrow> Inl e
         | Inr proj \<Rightarrow>
             if total_reps c = 0 then Inl ZeroDivisionError
             else Inr \<lparr>challenge = c,
                       percentage = of_int (current_reps c) / of_int (total_reps c) * 100,
                       days_elapsed = de, days_remaining = dr,
                       actual_daily_avg = avg, needed_daily_avg = needed,
                       projected_date = proj,
                       on_track = (daily_target c \<le> avg)\<rparr>)"

definition get_challenge_progress ::
  "store \<Rightarrow> string \<Rightarrow> cid \<Rightarrow> datetime \<Rightarrow> store \<times> (error + Progress option)" where
  "get_challenge_progress s user_id challenge_id now =
     (let (s1, ud) = get_user_data s user_id
      in case map_of (challenges ud) challenge_id of
           None \<Rightarrow> (s1, Inr None)
         | Some c \<Rightarrow>
             (case challenge_progress c now of
                Inl e \<Rightarrow> (s1, Inl e)
              | Inr p \<Rightarrow> (s1, Inr (Some p))))"

text \<open>The loop of \<open>get_active_challenges\<close> over \<open>user_data['challenges'].items()\<close>; an
  exception of \<open>get_challenge_progress\<close> ends it.\<close>

fun active_loop ::
  "store \<Rightarrow> string \<Rightarrow> datetime \<Rightarrow> (cid \<times> Challenge) list \<Rightarrow> Progress list
     \<Rightarrow> store \<times> (error + Progress list)" where
  "active_loop s user_id now [] acc = (s, Inr acc)"
| "active_loop s user_id now ((k, c) # rest) acc =
     (if status c = ACTIVE
      then (case get_challenge_progress s user_id k now of
              (s1, Inl e) \<Rightarrow> (s1, Inl e)
            | (s1, Inr None) \<Rightarrow> active_loop s1 user_id now rest acc
            | (s1, Inr (Some p)) \<Rightarrow> active_loop s1 user_id now rest (acc @ [p]))
      else active_loop s user_id now rest acc)"

definition get_active_challenges ::
  "store \<Rightarrow> string \<Rightarrow> datetime \<Rightarrow> store \<times> (error + Progress list)" where
  "get_active_challenges s user_id now =
     (let (s1, ud) = get_user_data s user_id
      in active_loop s1 user_id now (challenges ud) [])"

subsection \<open>send_daily_reminders\<close>

text \<open>
  One line of the reminder text, without its wording: \<open>RepsNeeded\<close> is
  \<open>"{exercise}: {daily_target:.0f} reps needed"\<close> (nothing logged today), \<open>MoreReps\<close> is
  \<open>"{exercise}: {remaining:.0f} more reps to reach daily goal"\<close> (part of the target
  logged) and \<open>GoalAchieved\<close> is \<open>"{exercise}: Daily goal achieved!"\<close>.
\<close>

datatype ReminderLine =
  RepsNeeded ExerciseType int
| MoreReps ExerciseType int
| GoalAchieved ExerciseType

definition reminder_line :: "Progress \<Rightarrow> datetime \<Rightarrow> ReminderLine" where
  "reminder_line p now =
     (let c = challenge p;
          today = date_key now;
          today_reps = get_or_zero (daily_records c) today
      in if today_reps = 0 then RepsNeeded (exercise c) (py_round (daily_target c))
         else if of_int today_reps < daily_target c
         then MoreReps (exercise c) (py_round (daily_target c - of_int today_reps))
         else GoalAchieved (exercise c))"

text \<open>
  The body of the loop over the users, up to the text of the reminder: \<open>None\<close> is
  \<open>continue\<close> (nothing is sent), \<open>Some lines\<close> is the text built for the user. The
  exception of \<open>get_active_challenges\<close> is raised outside the \<open>try\<close>. The delivery
  (\<open>int(user_id)\<close>, \<open>send_message\<close> and the \<open>except\<close> that logs their failures) is the
  bot platform's part and is not modelled.
\<close>

definition user_reminder ::
  "store \<Rightarrow> string \<Rightarrow> UserData \<Rightarrow> datetime \<Rightarrow> store \<times> (error + ReminderLine list option)" where
  "user_reminder s user_id ud now =
     (if \<not> reminders_enabled ud then (s, Inr None)
      else (case get_active_challenges s user_id now of
              (s1, Inl e) \<Rightarrow> (s1, Inl e)
            | (s1, Inr active) \<Rightarrow>
                if active = [] then (s1, Inr None)
                else (s1, Inr (Some (map (\<lambda>p. reminder_line p now) active)))))"

fun reminders_loop ::
  "store \<Rightarrow> datetime \<Rightarrow> (string \<times> UserData) list \<Rightarrow> (string \<times> ReminderLine list) list
     \<Rightarrow> store \<times> (error + (string \<times> ReminderLine list) list)" where
  "reminders_loop s now [] sent = (s, Inr sent)"
| "reminders_loop s now ((user_id, ud) # rest) sent =
     (case user_reminder s user_id ud now of
        (s1, Inl e) \<Rightarrow> (s1, Inl e)
      | (s1, Inr None) \<Rightarrow> reminders_loop s1 now rest sent
      | (s1, Inr (Some lines)) \<Rightarrow> reminders_loop s1 now rest (sent @ [(user_id, lines)]))"

definition send_daily_reminders ::
  "store \<Rightarrow> datetime \<Rightarrow> store \<times> (error + (string \<times> ReminderLine list) list)" where
  "send_daily_reminders s now = reminders_loop s now s []"

subsection \<open>Sequences of calls\<close>

text \<open>The two mutating operations as calls on a store that starts empty (\<open>load_data\<close>
  without a data file); a call's result is dropped, its effect on the store kept.\<close>

datatype call =
  CreateChallenge string ExerciseType int int datetime
| AddReps string cid int datetime

fun exec :: "store \<Rightarrow> call \<Rightarrow> store" where
  "exec s (CreateChallenge user_id ex treps days now) =
     fst (create_challenge s user_id ex treps days now)"
| "exec s (AddReps user_id challenge_id reps now) =
     fst (add_reps s user_id challenge_id reps now)"

definition run :: "call list \<Rightarrow> store" where
  "run calls = foldl exec [] calls"

text \<open>The preconditions of the two operations on their quantities.\<close>

fun positive_call :: "call \<Rightarrow> bool" where
  "positive_call (CreateChallenge user_id ex treps days now) \<longleftrightarrow> 0 < treps \<and> 0 < days"
| "positive_call (AddReps user_id challenge_id reps now) \<longleftrightarrow> 0 < reps"

subsection \<open>Observations, invariants and example data\<close>

text \<open>\<open>self.user_data[user_id]['challenges'][k]\<close>, when both keys are present.\<close>

definition lookup_challenge :: "store \<Rightarrow> string \<Rightarrow> cid \<Rightarrow> Challenge option" where
  "lookup_challenge s user_id k =
     (case map_of s user_id of None \<Rightarrow> None | Some ud \<Rightarrow> map_of (challenges ud) k)"

text \<open>A run of \<open>add_reps\<close> calls on one challenge that stops at the first failure.\<close>

fun add_many :: "store \<Rightarrow> string \<Rightarrow> cid \<Rightarrow> (int \<times> datetime) list \<Rightarrow> store \<times> bool" where
  "add_many s user_id k [] = (s, True)"
| "add_many s user_id k ((reps, now) # rest) =
     (case add_reps s user_id k reps now of
        (s1, ok) \<Rightarrow> if ok then add_many s1 user_id k rest else (s1, False))"

text \<open>A property of every challenge of every user in the store.\<close>

definition store_all :: "(Challenge \<Rightarrow> bool) \<Rightarrow> store \<Rightarrow> bool" where
  "store_all P s = list_all (\<lambda>(u, ud). list_all (\<lambda>(k, c). P c) (challenges ud)) s"


definition records_ok :: "Challenge \<Rightarrow> bool" where
  "records_ok c \<longleftrightarrow>
     current_reps c = sum_list (map snd (daily_records c)) \<and>
     distinct (map fst (daily_records c))"

text \<open>Example data: noon of 2026-11-03 and of the two following days, user \<open>7\<close>, and a
  challenge of 100 push-ups in 30 days with 40 repetitions logged.\<close>

definition demo_t0 :: datetime where
  "demo_t0 = 63929304000000000"

definition demo_t1 :: datetime where
  "demo_t1 = 63929390400000000"

definition demo_t2 :: datetime where
  "demo_t2 = 63929476800000000"

definition demo_id :: cid where
  "demo_id = (PUSHUPS, 63929304000)"

definition demo_calls :: "call list" where
  "demo_calls =
     [CreateChallenge ''7'' PUSHUPS 100 30 demo_t0,
      AddReps ''7'' demo_id 40 demo_t0]"

text \<open>The example challenge once it is completed, on the next day.\<close>

definition demo_completed :: store where
  "demo_completed = fst (add_reps (run demo_calls) ''7'' demo_id 61 demo_t1)"

text \<open>A slow challenge: 100000 push-ups in 365 days with a single repetition logged on the
  first day, looked at 30 days later (noon of 2026-12-03).\<close>

definition demo_t30 :: datetime where
  "demo_t30 = 63931896000000000"

definition demo_slow_calls :: "call list" where
  "demo_slow_calls =
     [CreateChallenge ''7'' PUSHUPS 100000 365 demo_t0,
      AddReps ''7'' demo_id 1 demo_t0]"

text \<open>The example store with a second challenge of user \<open>7\<close> and a second user.\<close>

definition demo_two_calls :: "call list" where
  "demo_two_calls =
     demo_calls @
     [CreateChallenge ''7'' SQUATS 50 5 demo_t0,
      CreateChallenge ''8'' BURPEES 20 2 demo_t0]"

section \<open>Properties\<close>

subsection \<open>Dictionaries and the store\<close>

lemmas eval_defs = run_def create_challenge_def add_reps_def get_user_data_def set_challenge_def
  log_reps_def timedelta_days_int_def timedelta_us_def datetime_add_def us_per_day_def
  datetime_max_def second_key_def date_key_def default_user_data_def Let_def
  lookup_challenge_def get_or_zero_def valid_datetime_def
  demo_t0_def demo_t1_def demo_t2_def demo_id_def demo_calls_def demo_completed_def

lemma update_absent: "k \<notin> fst ` set al \<Longrightarrow> AList.update k v al = al @ [(k, v)]"
  by (induction al) auto

lemma set_update_cases:
  "x \<in> set (AList.update k v al) \<Longrightarrow> x = (k, v) \<or> x \<in> set al"
  by (induction al) (auto split: if_splits)

lemma get_user_data_known: "map_of s u = Some ud \<Longrightarrow> get_user_data s u = (s, ud)"
  by (simp add: get_user_data_def)

lemma get_user_data_unknown:
  assumes "map_of s u = None"
  shows "get_user_data s u = (s @ [(u, default_user_data)], default_user_data)"
proof -
  from assms have "u \<notin> fst ` set s" by (simp add: map_of_eq_None_iff)
  then have "AList.update u default_user_data s = s @ [(u, default_user_data)]"
    by (rule update_absent)
  with assms show ?thesis by (simp add: get_user_data_def)
qed

lemma set_challenge_lookup:
  "map_of (set_challenge s u ud k c) u' =
     (if u' = u then Some (ud\<lparr>challenges := AList.update k c (challenges ud)\<rparr>) else map_of s u')"
  by (simp add: set_challenge_def update_conv')

lemma set_challenge_keys:
  "map_of s u = Some ud0 \<Longrightarrow> map fst (set_challenge s u ud k c) = map fst s"
  by (simp add: set_challenge_def update_keys) (metis domI dom_map_of_conv_image_fst)

lemma lookup_challengeD:
  "lookup_challenge s u k = Some c \<Longrightarrow>
     \<exists>ud. map_of s u = Some ud \<and> map_of (challenges ud) k = Some c"
  by (auto simp: lookup_challenge_def split: option.splits)

subsection \<open>What add_reps does to the challenge it finds\<close>

lemma log_reps_fields:
  "id' (log_reps c reps now) = id' c"
  "exercise (log_reps c reps now) = exercise c"
  "total_reps (log_reps c reps now) = total_reps c"
  "target_days (log_reps c reps now) = target_days c"
  "start_date (log_reps c reps now) = start_date c"
  "target_date (log_reps c reps now) = target_date c"
  "daily_target (log_reps c reps now) = daily_target c"
  "current_reps (log_reps c reps now) = current_reps c + reps"
  by (simp_all add: log_reps_def Let_def)

lemma log_reps_status:
  "status (log_reps c reps now) =
     (if total_reps c \<le> current_reps c + reps then COMPLETED else status c)"
  "completion_date (log_reps c reps now) =
     (if total_reps c \<le> current_reps c + reps then Some now else completion_date c)"
  by (simp_all add: log_reps_def Let_def)

lemma log_reps_records:
  "map_of (daily_records (log_reps c reps now)) =
     (map_of (daily_records c))
       (date_key now \<mapsto> get_or_zero (daily_records c) (date_key now) + reps)"
  by (auto simp: log_reps_def Let_def update_conv' get_or_zero_def fun_eq_iff
      split: option.splits dest: map_of_SomeD simp: rev_image_eqI)

lemma sum_update:
  "sum_list (map snd (AList.update k v al)) = sum_list (map snd al) - get_or_zero al k + v"
  by (induction al) (auto simp: get_or_zero_def)

lemma get_or_zero_update: "get_or_zero (AList.update k v al) k = v"
  by (simp add: get_or_zero_def update_conv')

lemma get_or_zero_absent: "k \<notin> fst ` set al \<Longrightarrow> get_or_zero al k = 0"
  by (simp add: get_or_zero_def map_of_eq_None_iff [THEN iffD2])

lemma log_reps_sum:
  "sum_list (map snd (daily_records (log_reps c reps now)))
      = sum_list (map snd (daily_records c)) + reps"
  by (simp add: log_reps_def Let_def sum_update get_or_zero_update get_or_zero_absent)

lemma add_reps_True:
  assumes "add_reps s u k reps now = (s', True)"
  obtains ud c where "map_of s u = Some ud" "map_of (challenges ud) k = Some c"
    "s' = set_challenge s u ud k (log_reps c reps now)"
proof (cases "map_of s u")
  case None
  with assms show ?thesis
    by (simp add: add_reps_def get_user_data_unknown default_user_data_def)
next
  case (Some ud)
  with assms that show ?thesis
    by (auto simp: add_reps_def get_user_data_known split: option.splits)
qed

lemma add_reps_found:
  assumes "lookup_challenge s u k = Some c"
  shows "\<exists>s'. add_reps s u k reps now = (s', True) \<and>
           lookup_challenge s' u k = Some (log_reps c reps now)"
proof -
  from assms obtain ud where ud: "map_of s u = Some ud" "map_of (challenges ud) k = Some c"
    by (auto dest: lookup_challengeD)
  then have "add_reps s u k reps now = (set_challenge s u ud k (log_reps c reps now), True)"
    by (simp add: add_reps_def get_user_data_known)
  moreover have "lookup_challenge (set_challenge s u ud k (log_reps c reps now)) u k
      = Some (log_reps c reps now)"
    by (simp add: lookup_challenge_def set_challenge_lookup update_conv')
  ultimately show ?thesis by simp
qed

lemma add_reps_not_found:
  assumes "lookup_challenge s u k = None"
  shows "add_reps s u k reps now =
     (if u \<in> fst ` set s then s else s @ [(u, default_user_data)], False)"
proof (cases "map_of s u")
  case None
  then have "u \<notin> fst ` set s" by (simp add: map_of_eq_None_iff)
  with None show ?thesis
    by (simp add: add_reps_def get_user_data_unknown default_user_data_def)
next
  case (Some ud)
  then have "u \<in> fst ` set s" by (metis map_of_eq_None_iff option.distinct(1))
  with Some assms show ?thesis
    by (simp add: add_reps_def get_user_data_known lookup_challenge_def)
qed

subsection \<open>Invariants of the store\<close>

lemma store_all_iff:
  "store_all P s \<longleftrightarrow>
     (\<forall>u ud k c. (u, ud) \<in> set s \<longrightarrow> (k, c) \<in> set (challenges ud) \<longrightarrow> P c)"
  by (auto simp: store_all_def list_all_iff)

lemma store_all_lookup_challenge:
  "store_all P s \<Longrightarrow> lookup_challenge s u k = Some c \<Longrightarrow> P c"
  by (meson lookup_challengeD store_all_iff map_of_SomeD)

lemma store_all_get_user_data:
  assumes "store_all P s" and "get_user_data s u = (s1, ud)"
  shows "store_all P s1" and "\<forall>(k, c) \<in> set (challenges ud). P c"
proof -
  show "store_all P s1"
    using assms
    by (auto simp: get_user_data_def store_all_iff default_user_data_def
        split: option.splits dest!: set_update_cases)
  show "\<forall>(k, c) \<in> set (challenges ud). P c"
    using assms
    by (auto simp: get_user_data_def store_all_iff default_user_data_def
        split: option.splits dest!: map_of_SomeD)
qed

lemma store_all_set_challenge:
  assumes "store_all P s" and "\<forall>(k, c) \<in> set (challenges ud). P c" and "P c"
  shows "store_all P (set_challenge s u ud k c)"
  unfolding store_all_iff set_challenge_def
proof (intro allI impI)
  fix u' ud' k' c'
  assume a: "(u', ud') \<in>
      set (AList.update u (ud\<lparr>challenges := AList.update k c (challenges ud)\<rparr>) s)"
    and b: "(k', c') \<in> set (challenges ud')"
  from a have "(u', ud') = (u, ud\<lparr>challenges := AList.update k c (challenges ud)\<rparr>)
      \<or> (u', ud') \<in> set s"
    by (rule set_update_cases)
  then show "P c'"
  proof
    assume "(u', ud') = (u, ud\<lparr>challenges := AList.update k c (challenges ud)\<rparr>)"
    with b have "(k', c') \<in> set (AList.update k c (challenges ud))" by simp
    then have "(k', c') = (k, c) \<or> (k', c') \<in> set (challenges ud)"
      by (rule set_update_cases)
    with assms(2,3) show ?thesis by auto
  next
    assume "(u', ud') \<in> set s"
    with assms(1) b show ?thesis unfolding store_all_iff by blast
  qed
qed

lemma store_all_create:
  assumes "store_all P s"
    and "\<And>target. days \<noteq> 0 \<Longrightarrow>
           P \<lparr>id' = (ex, second_key now), exercise = ex, total_reps = treps,
              target_days = days, current_reps = 0, start_date = now,
              target_date = target, status = ACTIVE, daily_records = [],
              daily_target = of_int treps / of_int days, completion_date = None\<rparr>"
  shows "store_all P (fst (create_challenge s u ex treps days now))"
proof -
  obtain s1 ud where g: "get_user_data s u = (s1, ud)" by (cases "get_user_data s u")
  note h = store_all_get_user_data [OF assms(1) g]
  show ?thesis
    using h assms(2)
    by (auto simp: create_challenge_def g Let_def intro!: store_all_set_challenge
        split: sum.splits)
qed

lemma store_all_add:
  assumes "store_all P s" and "\<And>c. P c \<Longrightarrow> P (log_reps c reps now)"
  shows "store_all P (fst (add_reps s u k reps now))"
proof -
  obtain s1 ud where g: "get_user_data s u = (s1, ud)" by (cases "get_user_data s u")
  note h = store_all_get_user_data [OF assms(1) g]
  show ?thesis
  proof (cases "map_of (challenges ud) k")
    case None
    with h show ?thesis by (simp add: add_reps_def g)
  next
    case (Some c)
    then have "(k, c) \<in> set (challenges ud)" by (rule map_of_SomeD)
    with h(2) have "P c" by auto
    then have "P (log_reps c reps now)" by (rule assms(2))
    with h Some show ?thesis
      by (simp add: add_reps_def g store_all_set_challenge)
  qed
qed





lemma records_ok_log_reps: "records_ok c \<Longrightarrow> records_ok (log_reps c reps now)"
  by (simp add: records_ok_def log_reps_sum log_reps_fields)
    (simp add: log_reps_def Let_def distinct_update)

lemma store_all_records_exec: "store_all records_ok s \<Longrightarrow> store_all records_ok (exec s x)"
proof (cases x)
  case (CreateChallenge u ex treps days now)
  assume "store_all records_ok s"
  with CreateChallenge show ?thesis
    by (auto intro!: store_all_create simp: records_ok_def)
next
  case (AddReps u k reps now)
  assume "store_all records_ok s"
  with AddReps show ?thesis
    by (auto intro!: store_all_add records_ok_log_reps)
qed

lemma store_all_records_foldl:
  "store_all records_ok s \<Longrightarrow> store_all records_ok (foldl exec s calls)"
  by (induction calls arbitrary: s) (auto simp: store_all_records_exec)

lemma add_many_sum:
  "lookup_challenge s u k = Some c \<Longrightarrow>
     \<exists>s' c'. add_many s u k rts = (s', True) \<and> lookup_challenge s' u k = Some c' \<and>
        current_reps c' = current_reps c + sum_list (map fst rts) \<and>
        sum_list (map snd (daily_records c')) =
          sum_list (map snd (daily_records c)) + sum_list (map fst rts)"
proof (induction rts arbitrary: s c)
  case Nil
  then show ?case by simp
next
  case (Cons rt rts)
  obtain reps now where rt: "rt = (reps, now)" by (cases rt)
  from add_reps_found [OF Cons.prems] obtain s1 where
    s1: "add_reps s u k reps now = (s1, True)"
    "lookup_challenge s1 u k = Some (log_reps c reps now)" by blast
  from Cons.IH [OF s1(2)] obtain s' c' where
    "add_many s1 u k rts = (s', True)" "lookup_challenge s' u k = Some c'"
    "current_reps c' = current_reps (log_reps c reps now) + sum_list (map fst rts)"
    "sum_list (map snd (daily_records c')) =
       sum_list (map snd (daily_records (log_reps c reps now))) + sum_list (map fst rts)"
    by blast
  moreover have "sum_list (map snd (daily_records (log_reps c reps now)))
      = sum_list (map snd (daily_records c)) + reps"
    by (rule log_reps_sum)
  ultimately show ?case using s1 rt by (simp add: log_reps_fields)
qed

subsection \<open>What create_challenge does\<close>



lemma create_challenge_Inr:
  assumes "create_challenge s u ex treps days now = (s', Inr k)"
  shows "k = (ex, second_key now) \<and> days \<noteq> 0 \<and>
     lookup_challenge s' u k = Some
        \<lparr>id' = k, exercise = ex, total_reps = treps,
         target_days = days, current_reps = 0, start_date = now,
         target_date = now + days * us_per_day, status = ACTIVE, daily_records = [],
         daily_target = of_int treps / of_int days, completion_date = None\<rparr>"
proof -
  obtain s1 ud where g: "get_user_data s u = (s1, ud)" by (cases "get_user_data s u")
  from assms show ?thesis
    by (auto simp: create_challenge_def g Let_def timedelta_days_int_def timedelta_us_def
        datetime_add_def lookup_challenge_def set_challenge_lookup update_conv'
        split: sum.splits if_splits)
qed

subsection \<open>The store after a call\<close>

lemma get_user_data_fst:
  "fst (get_user_data s u) = (if u \<in> fst ` set s then s else s @ [(u, default_user_data)])"
proof (cases "map_of s u")
  case None
  then have "u \<notin> fst ` set s" by (simp add: map_of_eq_None_iff)
  with None show ?thesis by (simp add: get_user_data_unknown)
next
  case (Some ud)
  then have "u \<in> fst ` set s" by (metis map_of_eq_None_iff option.distinct(1))
  with Some show ?thesis by (simp add: get_user_data_known)
qed

lemma lookup_challenge_get_user_data:
  "lookup_challenge (fst (get_user_data s u)) u' k' = lookup_challenge s u' k'"
  by (auto simp: get_user_data_def lookup_challenge_def update_conv' default_user_data_def
      split: option.splits)

lemma get_user_data_snd:
  "map_of (challenges (snd (get_user_data s u))) k = lookup_challenge s u k"
  by (auto simp: get_user_data_def lookup_challenge_def default_user_data_def
      split: option.splits)

lemma lookup_challenge_set_challenge:
  "lookup_challenge (set_challenge s u ud k c) u' k' =
     (if u' = u then (if k' = k then Some c else map_of (challenges ud) k')
      else lookup_challenge s u' k')"
  by (simp add: lookup_challenge_def set_challenge_lookup update_conv')

lemma add_reps_eq:
  "add_reps s u k reps now =
     (case lookup_challenge s u k of
        None \<Rightarrow> (fst (get_user_data s u), False)
      | Some c \<Rightarrow> (set_challenge (fst (get_user_data s u)) u (snd (get_user_data s u)) k
                     (log_reps c reps now), True))"
  by (simp add: add_reps_def split_beta get_user_data_snd split: option.splits)

lemma add_reps_other:
  assumes "(u', k') \<noteq> (u, k)"
  shows "lookup_challenge (fst (add_reps s u k reps now)) u' k' = lookup_challenge s u' k'"
  using assms
  by (auto simp: add_reps_eq lookup_challenge_set_challenge lookup_challenge_get_user_data
      get_user_data_snd split: option.splits)

lemma add_reps_failed_lookup:
  assumes "lookup_challenge s u k = None"
  shows "lookup_challenge (fst (add_reps s u k reps now)) u' k' = lookup_challenge s u' k'"
  using assms by (simp add: add_reps_eq lookup_challenge_get_user_data)

lemma create_challenge_store:
  "fst (create_challenge s u ex treps days now) = fst (get_user_data s u) \<or>
   (\<exists>c. fst (create_challenge s u ex treps days now) =
      set_challenge (fst (get_user_data s u)) u (snd (get_user_data s u)) (ex, second_key now) c)"
  by (auto simp: create_challenge_def split_beta Let_def split: sum.splits)

lemma create_challenge_other:
  assumes "(u', k') \<noteq> (u, (ex, second_key now))"
  shows "lookup_challenge (fst (create_challenge s u ex treps days now)) u' k'
     = lookup_challenge s u' k'"
  using assms create_challenge_store [of s u ex treps days now]
  by (auto simp: lookup_challenge_set_challenge lookup_challenge_get_user_data get_user_data_snd)



subsection \<open>The read operations and the store\<close>

lemma get_user_data_again:
  "get_user_data (fst (get_user_data s u)) u = get_user_data s u"
  by (auto simp: get_user_data_def update_conv' split: option.splits)

lemma get_challenge_progress_fst:
  "fst (get_challenge_progress s u k now) = fst (get_user_data s u)"
  by (simp add: get_challenge_progress_def split_beta split: option.splits sum.splits)

lemma get_challenge_progress_known:
  "u \<in> fst ` set s \<Longrightarrow> fst (get_challenge_progress s u k now) = s"
  by (simp add: get_challenge_progress_fst get_user_data_fst)

lemma get_challenge_progress_again:
  "get_challenge_progress (fst (get_challenge_progress s u k now)) u k now
     = get_challenge_progress s u k now"
proof -
  have "get_challenge_progress (fst (get_user_data s u)) u k now
      = get_challenge_progress s u k now"
    unfolding get_challenge_progress_def [of "fst (get_user_data s u)"]
      get_challenge_progress_def [of s] get_user_data_again ..
  then show ?thesis by (simp add: get_challenge_progress_fst)
qed

lemma active_loop_fst:
  "u \<in> fst ` set s \<Longrightarrow> fst (active_loop s u now cs acc) = s"
proof (induction cs arbitrary: acc)
  case Nil
  then show ?case by simp
next
  case (Cons kc cs)
  obtain k c where kc: "kc = (k, c)" by (cases kc)
  obtain r where r: "get_challenge_progress s u k now = (s, r)"
    using get_challenge_progress_known [OF Cons.prems, of k now]
    by (cases "get_challenge_progress s u k now") simp
  show ?case
    using Cons r by (simp add: kc split: sum.splits option.splits)
qed

lemma get_user_data_in_keys: "u \<in> fst ` set (fst (get_user_data s u))"
  by (simp add: get_user_data_fst)

lemma get_active_challenges_fst:
  "fst (get_active_challenges s u now) = fst (get_user_data s u)"
  using active_loop_fst [OF get_user_data_in_keys, of s u now]
  by (simp add: get_active_challenges_def split_beta)

lemma get_active_challenges_again:
  "get_active_challenges (fst (get_active_challenges s u now)) u now
     = get_active_challenges s u now"
proof -
  have "get_active_challenges (fst (get_user_data s u)) u now = get_active_challenges s u now"
    unfolding get_active_challenges_def [of "fst (get_user_data s u)"]
      get_active_challenges_def [of s] get_user_data_again ..
  then show ?thesis by (simp add: get_active_challenges_fst)
qed

lemma user_reminder_fst:
  "u \<in> fst ` set s \<Longrightarrow> fst (user_reminder s u ud now) = s"
  using get_active_challenges_fst [of s u now]
  by (auto simp: user_reminder_def get_user_data_fst split: prod.splits sum.splits)

lemma reminders_loop_fst:
  "fst ` set items \<subseteq> fst ` set s \<Longrightarrow> fst (reminders_loop s now items sent) = s"
proof (induction items arbitrary: sent)
  case Nil
  then show ?case by simp
next
  case (Cons x items)
  obtain u ud where x: "x = (u, ud)" by (cases x)
  with Cons.prems have "u \<in> fst ` set s" by auto
  then obtain r where r: "user_reminder s u ud now = (s, r)"
    using user_reminder_fst [of u s ud now] by (cases "user_reminder s u ud now") simp
  from Cons.prems have "fst ` set items \<subseteq> fst ` set s" by auto
  with Cons.IH r show ?case by (simp add: x split: sum.splits option.splits)
qed

lemma send_daily_reminders_fst: "fst (send_daily_reminders s now) = s"
  by (simp add: send_daily_reminders_def reminders_loop_fst)

subsection \<open>What get_challenge_progress returns\<close>

text \<open>When the computation returns, the fields of the snapshot are the formulas of the
  source; \<open>.days\<close> is the floor of the difference in days. It returns whenever there is
  nothing to project, that is for a challenge without logged repetitions.\<close>

lemma diff_days_floor:
  "diff_days a b = \<lfloor>real_of_int (a - b) / real_of_int us_per_day\<rfloor>"
  unfolding diff_days_def by (rule floor_divide_of_int_eq [symmetric])

lemma py_round_nearest: "\<bar>real_of_int (py_round x) - x\<bar> \<le> 1 / 2"
proof -
  have "real_of_int \<lfloor>x\<rfloor> \<le> x" "x < real_of_int \<lfloor>x\<rfloor> + 1" by linarith+
  then show ?thesis by (auto simp: py_round_def Let_def)
qed

lemma py_round_of_int: "py_round (real_of_int n) = n"
  by (simp add: py_round_def)

lemma challenge_progress_Inr:
  assumes "challenge_progress c now = Inr p"
  shows "challenge p = c"
    and "days_elapsed p = diff_days now (start_date c) + 1"
    and "days_remaining p = diff_days (target_date c) now"
    and "percentage p = real_of_int (current_reps c) / real_of_int (total_reps c) * 100"
    and "actual_daily_avg p =
           (if 0 < days_elapsed p
            then real_of_int (current_reps c) / real_of_int (days_elapsed p) else 0)"
    and "needed_daily_avg p =
           real_of_int (total_reps c - current_reps c) / real_of_int (max (days_remaining p) 1)"
    and "projected_date p =
           (if 0 < actual_daily_avg p
            then Some (now + py_round (real_of_int (total_reps c - current_reps c)
                                        / actual_daily_avg p * real_of_int us_per_day))
            else None)"
    and "on_track p = (daily_target c \<le> actual_daily_avg p)"
    and "total_reps c \<noteq> 0"
  using assms
  by (auto simp: challenge_progress_def projection_def Let_def timedelta_days_float_def
      timedelta_us_def datetime_add_def split: sum.splits if_splits)

lemma challenge_progress_no_progress:
  assumes "total_reps c \<noteq> 0" and "current_reps c \<le> 0 \<or> now < start_date c"
  shows "\<exists>p. challenge_progress c now = Inr p \<and> projected_date p = None"
proof -
  have "diff_days now (start_date c) + 1 \<le> 0" if "now < start_date c"
  proof -
    from that have "(now - start_date c) div us_per_day < 0"
      by (simp add: us_per_day_def div_neg_pos_less0)
    then show ?thesis by (simp add: diff_days_def)
  qed
  with assms(2) have
    "\<not> 0 < (if 0 < diff_days now (start_date c) + 1
        then real_of_int (current_reps c) / real_of_int (diff_days now (start_date c) + 1)
        else 0)"
    by (auto simp: divide_le_0_iff not_less)
  with assms(1) show ?thesis
    by (simp add: challenge_progress_def projection_def Let_def)
qed

subsection \<open>The lines of a reminder\<close>

text \<open>When \<open>get_active_challenges\<close> returns, the reminder has one line for each active
  challenge, in the order of the dictionary, and the line depends on today's record and
  the daily target alone.\<close>

lemma reminder_line_classes:
  assumes "0 < daily_target (challenge p)"
  shows "(get_or_zero (daily_records (challenge p)) (date_key now) = 0 \<longrightarrow>
            reminder_line p now
              = RepsNeeded (exercise (challenge p)) (py_round (daily_target (challenge p)))) \<and>
         (0 < get_or_zero (daily_records (challenge p)) (date_key now) \<and>
          real_of_int (get_or_zero (daily_records (challenge p)) (date_key now))
            < daily_target (challenge p) \<longrightarrow>
            reminder_line p now
              = MoreReps (exercise (challenge p))
                  (py_round (daily_target (challenge p)
                     - real_of_int (get_or_zero (daily_records (challenge p)) (date_key now))))) \<and>
         (daily_target (challenge p)
            \<le> real_of_int (get_or_zero (daily_records (challenge p)) (date_key now)) \<longrightarrow>
            reminder_line p now = GoalAchieved (exercise (challenge p)))"
  using assms by (auto simp: reminder_line_def Let_def)

lemma user_reminder_disabled:
  "\<not> reminders_enabled ud \<Longrightarrow> user_reminder s u ud now = (s, Inr None)"
  by (simp add: user_reminder_def)

lemma user_reminder_enabled:
  assumes "reminders_enabled ud" and "get_active_challenges s u now = (s1, Inr active)"
  shows "user_reminder s u ud now =
     (s1, Inr (if active = [] then None else Some (map (\<lambda>p. reminder_line p now) active)))"
  using assms by (simp add: user_reminder_def)

lemma user_reminder_raises:
  assumes "reminders_enabled ud" and "get_active_challenges s u now = (s1, Inl e)"
  shows "user_reminder s u ud now = (s1, Inl e)"
  using assms by (simp add: user_reminder_def)

lemma active_loop_Inr:
  assumes "map_of s u = Some ud" and "distinct (map fst (challenges ud))"
    and "set cs \<subseteq> set (challenges ud)"
    and "active_loop s u now cs acc = (s', Inr ps)"
  shows "map challenge ps
     = map challenge acc @ map snd (filter (\<lambda>(k, c). status c = ACTIVE) cs)"
  using assms(3,4)
proof (induction cs arbitrary: acc)
  case Nil
  then show ?case by simp
next
  case (Cons kc cs)
  obtain k c where kc: "kc = (k, c)" by (cases kc)
  with Cons.prems have "(k, c) \<in> set (challenges ud)" by simp
  with assms(2) have look: "map_of (challenges ud) k = Some c" by simp
  from Cons.prems have sub: "set cs \<subseteq> set (challenges ud)" by simp
  show ?case
  proof (cases "status c = ACTIVE")
    case False
    with Cons.prems have "active_loop s u now cs acc = (s', Inr ps)" by (simp add: kc)
    from Cons.IH [OF sub this] False show ?thesis by (simp add: kc)
  next
    case True
    show ?thesis
    proof (cases "challenge_progress c now")
      case (Inl e)
      with True look assms(1) Cons.prems show ?thesis
        by (simp add: kc get_challenge_progress_def get_user_data_known)
    next
      case (Inr p)
      with True look assms(1) Cons.prems
      have "active_loop s u now cs (acc @ [p]) = (s', Inr ps)"
        by (simp add: kc get_challenge_progress_def get_user_data_known)
      from Cons.IH [OF sub this] True Inr show ?thesis
        by (simp add: kc challenge_progress_Inr(1))
    qed
  qed
qed

subsection \<open>The example stores\<close>

lemmas progress_defs = get_challenge_progress_def challenge_progress_def projection_def
  diff_days_def timedelta_days_float_def py_round_def get_active_challenges_def
  user_reminder_def send_daily_reminders_def reminder_line_def
  demo_t30_def demo_slow_calls_def

lemma demo_slow_store:
  "run demo_slow_calls =
     [(''7'', \<lparr>challenges =
        [(demo_id, \<lparr>id' = demo_id, exercise = PUSHUPS, total_reps = 100000,
            target_days = 365, current_reps = 1, start_date = demo_t0,
            target_date = 63960840000000000, status = ACTIVE,
            daily_records = [(739922, 1)], daily_target = 100000 / 365,
            completion_date = None\<rparr>)],
        timezone = ''UTC'', reminder_times = (''09:00'', ''20:00''),
        reminders_enabled = True\<rparr>)]"
  by (simp add: eval_defs demo_slow_calls_def)

lemmas step_defs = add_reps_def create_challenge_def get_user_data_def set_challenge_def
  log_reps_def timedelta_days_int_def timedelta_us_def datetime_add_def us_per_day_def
  datetime_max_def second_key_def date_key_def default_user_data_def Let_def
  lookup_challenge_def get_or_zero_def demo_t0_def demo_t1_def demo_t2_def demo_id_def

lemma run_append: "run (xs @ ys) = foldl exec (run xs) ys"
  by (simp add: run_def)

lemma demo_store:
  "run demo_calls =
     [(''7'', \<lparr>challenges =
        [(demo_id, \<lparr>id' = demo_id, exercise = PUSHUPS, total_reps = 100,
            target_days = 30, current_reps = 40, start_date = demo_t0,
            target_date = 63931896000000000, status = ACTIVE,
            daily_records = [(739922, 40)], daily_target = 10 / 3,
            completion_date = None\<rparr>)],
        timezone = ''UTC'', reminder_times = (''09:00'', ''20:00''),
        reminders_enabled = True\<rparr>)]"
  by (simp add: eval_defs)

lemma demo_two_store:
  "run demo_two_calls =
     [(''7'', \<lparr>challenges =
        [(demo_id, \<lparr>id' = demo_id, exercise = PUSHUPS, total_reps = 100,
            target_days = 30, current_reps = 40, start_date = demo_t0,
            target_date = 63931896000000000, status = ACTIVE,
            daily_records = [(739922, 40)], daily_target = 10 / 3,
            completion_date = None\<rparr>),
         ((SQUATS, 63929304000), \<lparr>id' = (SQUATS, 63929304000), exercise = SQUATS,
            total_reps = 50, target_days = 5, current_reps = 0, start_date = demo_t0,
            target_date = 63929736000000000, status = ACTIVE,
            daily_records = [], daily_target = 10,
            completion_date = None\<rparr>)],
        timezone = ''UTC'', reminder_times = (''09:00'', ''20:00''),
        reminders_enabled = True\<rparr>),
      (''8'', \<lparr>challenges =
        [((BURPEES, 63929304000), \<lparr>id' = (BURPEES, 63929304000), exercise = BURPEES,
            total_reps = 20, target_days = 2, current_reps = 0, start_date = demo_t0,
            target_date = 63929476800000000, status = ACTIVE,
            daily_records = [], daily_target = 10,
            completion_date = None\<rparr>)],
        timezone = ''UTC'', reminder_times = (''09:00'', ''20:00''),
        reminders_enabled = True\<rparr>)]"
  unfolding demo_two_calls_def run_append demo_store
  by (simp add: create_challenge_def get_user_data_def set_challenge_def
      timedelta_days_int_def timedelta_us_def datetime_add_def us_per_day_def
      datetime_max_def second_key_def default_user_data_def Let_def demo_t0_def demo_id_def)

section \<open>The claims\<close>



text \<open>
  \<^bold>\<open>C2.\<close> After any sequence of \<open>create_challenge\<close> and \<open>add_reps\<close> calls, the
  \<open>current_reps\<close> of every challenge is the sum of the values of its \<open>daily_records\<close>
  (whose keys are distinct, as a dictionary's are). And on a challenge that
  \<open>create_challenge\<close> has just returned, every run of \<open>add_reps\<close> calls succeeds and
  leaves \<open>current_reps\<close> and the sum of the daily records equal to the sum of the logged
  repetitions.
\<close>

theorem current_reps_is_sum_of_daily_records:
  "(lookup_challenge (run calls) u k = Some c \<longrightarrow>
      current_reps c = sum_list (map snd (daily_records c)) \<and>
      distinct (map fst (daily_records c))) \<and>
   (create_challenge s u' ex treps days t0 = (s0, Inr k') \<longrightarrow>
      (\<exists>s' c'. add_many s0 u' k' rts = (s', True) \<and> lookup_challenge s' u' k' = Some c' \<and>
         current_reps c' = sum_list (map fst rts) \<and>
         sum_list (map snd (daily_records c')) = sum_list (map fst rts)))"
proof (intro conjI impI)
  assume a: "lookup_challenge (run calls) u k = Some c"
  have "store_all records_ok (run calls)"
    unfolding run_def by (rule store_all_records_foldl) (simp add: store_all_def)
  then have "records_ok c" using a by (rule store_all_lookup_challenge)
  then show "current_reps c = sum_list (map snd (daily_records c))"
    and "distinct (map fst (daily_records c))"
    by (simp_all add: records_ok_def)
next
  assume "create_challenge s u' ex treps days t0 = (s0, Inr k')"
  then obtain c0 where c0: "lookup_challenge s0 u' k' = Some c0"
    "current_reps c0 = 0" "daily_records c0 = []"
    by (auto dest!: create_challenge_Inr)
  from add_many_sum [OF c0(1), of rts] c0(2,3)
  show "\<exists>s' c'. add_many s0 u' k' rts = (s', True) \<and> lookup_challenge s' u' k' = Some c' \<and>
         current_reps c' = sum_list (map fst rts) \<and>
         sum_list (map snd (daily_records c')) = sum_list (map fst rts)"
    by simp
qed


theorem current_reps_is_sum_of_daily_records_witness:
  "(\<exists>c. lookup_challenge (run demo_calls) ''7'' demo_id = Some c \<and> current_reps c = 40 \<and>
      sum_list (map snd (daily_records c)) = 40) \<and>
   (\<exists>s0 s' c'. create_challenge [] ''7'' PUSHUPS 100 30 demo_t0 = (s0, Inr demo_id) \<and>
      add_many s0 ''7'' demo_id [(40, demo_t0), (25, demo_t1), (36, demo_t1)] = (s', True) \<and>
      lookup_challenge s' ''7'' demo_id = Some c' \<and> current_reps c' = 101 \<and>
      sum_list (map snd (daily_records c')) = 101)"
proof -
  obtain c where c: "lookup_challenge (run demo_calls) ''7'' demo_id = Some c"
    and v: "current_reps c = 40"
    by (simp add: eval_defs)
  obtain s0 where s0: "create_challenge [] ''7'' PUSHUPS 100 30 demo_t0 = (s0, Inr demo_id)"
    by (simp add: eval_defs)
  note t = current_reps_is_sum_of_daily_records
    [of demo_calls "''7''" demo_id c "[]" "''7''" PUSHUPS 100 30 demo_t0 s0 demo_id
      "[(40, demo_t0), (25, demo_t1), (36, demo_t1)]"]
  from t c v have "\<exists>c. lookup_challenge (run demo_calls) ''7'' demo_id = Some c \<and>
      current_reps c = 40 \<and> sum_list (map snd (daily_records c)) = 40"
    by simp
  moreover from t s0 have "\<exists>s0 s' c'.
      create_challenge [] ''7'' PUSHUPS 100 30 demo_t0 = (s0, Inr demo_id) \<and>
      add_many s0 ''7'' demo_id [(40, demo_t0), (25, demo_t1), (36, demo_t1)] = (s', True) \<and>
      lookup_challenge s' ''7'' demo_id = Some c' \<and> current_reps c' = 101 \<and>
      sum_list (map snd (daily_records c')) = 101"
    by (simp del: add_many.simps) 
  ultimately show ?thesis by blast
qed






text \<open>
  \<^bold>\<open>C5\<close>, as the code has it. \<open>add_reps\<close> on a challenge id that the user does not have
  returns \<open>False\<close>. The store is unchanged when the user has a profile; for an unknown
  user, \<open>get_user_data\<close> has appended the default profile, and nothing else changed.
\<close>

theorem add_reps_unknown_challenge:
  assumes "lookup_challenge s u k = None"
  shows "add_reps s u k reps now =
     (if u \<in> fst ` set s then s else s @ [(u, default_user_data)], False)"
  using assms by (rule add_reps_not_found)


theorem add_reps_unknown_challenge_witness:
  "lookup_challenge (run demo_calls) ''7'' (SQUATS, 0) = None \<and>
   add_reps (run demo_calls) ''7'' (SQUATS, 0) 5 demo_t1 = (run demo_calls, False) \<and>
   lookup_challenge (run demo_calls) ''8'' demo_id = None \<and>
   add_reps (run demo_calls) ''8'' demo_id 5 demo_t1
     = (run demo_calls @ [(''8'', default_user_data)], False)"
proof -
  have h1: "lookup_challenge (run demo_calls) ''7'' (SQUATS, 0) = None"
    and h2: "lookup_challenge (run demo_calls) ''8'' demo_id = None"
    and m: "''7'' \<in> fst ` set (run demo_calls)" "''8'' \<notin> fst ` set (run demo_calls)"
    by (simp_all add: eval_defs)
  from add_reps_unknown_challenge [OF h1, of 5 demo_t1]
    add_reps_unknown_challenge [OF h2, of 5 demo_t1] h1 h2 m
  show ?thesis by simp
qed


text \<open>The claim fails for an unknown user: the store gains a profile.\<close>

theorem add_reps_unknown_user_counterexample:
  "lookup_challenge [] ''7'' demo_id = None \<and>
   add_reps [] ''7'' demo_id 5 demo_t0 = ([(''7'', default_user_data)], False) \<and>
   fst (add_reps [] ''7'' demo_id 5 demo_t0) \<noteq> []"
  by (simp add: add_reps_def get_user_data_def lookup_challenge_def default_user_data_def)






text \<open>
  \<^bold>\<open>C9\<close>, as the code has it. \<open>add_reps\<close> sets \<open>completion_date\<close> to the instant of the
  call whenever \<open>current_reps\<close> is at or beyond \<open>total_reps\<close> after the increment: in the
  call that completes the challenge and again in every later call on the completed
  challenge. A call that leaves \<open>current_reps\<close> below \<open>total_reps\<close> keeps the date. No call
  changes another challenge: \<open>add_reps\<close> leaves every challenge but its target as it was,
  a failed \<open>add_reps\<close> leaves all of them, and \<open>create_challenge\<close> leaves every
  challenge stored under another id.
\<close>

theorem completion_date_restamped:
  "(\<forall>c. lookup_challenge s u k = Some c \<longrightarrow>
      (\<exists>c'. lookup_challenge (fst (add_reps s u k reps now)) u k = Some c' \<and>
         completion_date c' =
           (if total_reps c \<le> current_reps c + reps then Some now else completion_date c))) \<and>
   (\<forall>u' k'. (u', k') \<noteq> (u, k) \<longrightarrow>
      lookup_challenge (fst (add_reps s u k reps now)) u' k' = lookup_challenge s u' k') \<and>
   (lookup_challenge s u k = None \<longrightarrow>
      (\<forall>u' k'. lookup_challenge (fst (add_reps s u k reps now)) u' k' = lookup_challenge s u' k')) \<and>
   (\<forall>u' k'. (u', k') \<noteq> (u, (ex, second_key now)) \<longrightarrow>
      lookup_challenge (fst (create_challenge s u ex treps days now)) u' k'
        = lookup_challenge s u' k')"
proof (intro conjI allI impI)
  fix c assume "lookup_challenge s u k = Some c"
  from add_reps_found [OF this, of reps now]
  show "\<exists>c'. lookup_challenge (fst (add_reps s u k reps now)) u k = Some c' \<and>
         completion_date c' =
           (if total_reps c \<le> current_reps c + reps then Some now else completion_date c)"
    by (auto simp: log_reps_status)
next
  fix u' k' assume "(u', k') \<noteq> (u, k)"
  then show "lookup_challenge (fst (add_reps s u k reps now)) u' k' = lookup_challenge s u' k'"
    by (rule add_reps_other)
next
  fix u' k' assume "lookup_challenge s u k = None"
  then show "lookup_challenge (fst (add_reps s u k reps now)) u' k' = lookup_challenge s u' k'"
    by (rule add_reps_failed_lookup)
next
  fix u' k' assume "(u', k') \<noteq> (u, (ex, second_key now))"
  then show "lookup_challenge (fst (create_challenge s u ex treps days now)) u' k'
        = lookup_challenge s u' k'"
    by (rule create_challenge_other)
qed

theorem completion_date_restamped_witness:
  "(\<exists>c. lookup_challenge demo_completed ''7'' demo_id = Some c \<and>
      status c = COMPLETED \<and> completion_date c = Some demo_t1) \<and>
   (\<exists>c'. lookup_challenge (fst (add_reps demo_completed ''7'' demo_id 1 demo_t2)) ''7'' demo_id
       = Some c' \<and> completion_date c' = Some demo_t2) \<and>
   lookup_challenge (fst (add_reps demo_completed ''8'' (SQUATS, 0) 1 demo_t2)) ''7'' demo_id
     = lookup_challenge demo_completed ''7'' demo_id \<and>
   lookup_challenge demo_completed ''7'' (SQUATS, 0) = None \<and>
   lookup_challenge (fst (add_reps demo_completed ''7'' (SQUATS, 0) 1 demo_t2)) ''7'' demo_id
     = lookup_challenge demo_completed ''7'' demo_id \<and>
   lookup_challenge (fst (create_challenge demo_completed ''7'' SQUATS 50 5 demo_t2)) ''7'' demo_id
     = lookup_challenge demo_completed ''7'' demo_id"
proof -
  obtain c where c: "lookup_challenge demo_completed ''7'' demo_id = Some c"
    and v: "status c = COMPLETED" "completion_date c = Some demo_t1"
      "total_reps c = 100" "current_reps c = 101"
    by (simp add: eval_defs)
  have n: "lookup_challenge demo_completed ''7'' (SQUATS, 0) = None"
    by (simp add: eval_defs)
  note t = completion_date_restamped
    [where s = demo_completed and u = "''7''" and k = demo_id and reps = 1 and now = demo_t2
      and ex = SQUATS and treps = 50 and days = 5]
  note t2 = completion_date_restamped
    [where s = demo_completed and u = "''8''" and k = "(SQUATS, 0)" and reps = 1
      and now = demo_t2]
  note t3 = completion_date_restamped
    [where s = demo_completed and u = "''7''" and k = "(SQUATS, 0)" and reps = 1
      and now = demo_t2]
  have ne: "(''7'', demo_id) \<noteq> (''7'', (SQUATS, second_key demo_t2))"
    "(''7'', demo_id) \<noteq> (''8'', (SQUATS, 0))"
    by (simp_all add: demo_id_def)
  from t c v have r1:
    "\<exists>c'. lookup_challenge (fst (add_reps demo_completed ''7'' demo_id 1 demo_t2)) ''7'' demo_id
       = Some c' \<and> completion_date c' = Some demo_t2"
    by auto
  have r2:
    "lookup_challenge (fst (create_challenge demo_completed ''7'' SQUATS 50 5 demo_t2)) ''7''
       demo_id = lookup_challenge demo_completed ''7'' demo_id"
    by (rule t [THEN conjunct2, THEN conjunct2, THEN conjunct2, rule_format, OF ne(1)])
  have r3:
    "lookup_challenge (fst (add_reps demo_completed ''8'' (SQUATS, 0) 1 demo_t2)) ''7'' demo_id
       = lookup_challenge demo_completed ''7'' demo_id"
    by (rule t2 [THEN conjunct2, THEN conjunct1, rule_format, OF ne(2)])
  have r4:
    "lookup_challenge (fst (add_reps demo_completed ''7'' (SQUATS, 0) 1 demo_t2)) ''7'' demo_id
       = lookup_challenge demo_completed ''7'' demo_id"
    by (rule t3 [THEN conjunct2, THEN conjunct2, THEN conjunct1, rule_format, OF n])
  from c v have r0: "\<exists>c. lookup_challenge demo_completed ''7'' demo_id = Some c \<and>
      status c = COMPLETED \<and> completion_date c = Some demo_t1"
    by simp
  from r0 r1 r3 n r4 r2 show ?thesis by (intro conjI)
qed

text \<open>The claim fails on a completed challenge: one more repetition, logged a day after
  the completion, moves \<open>completion_date\<close> to that day.\<close>

theorem completion_date_changes_counterexample:
  "map_option status (lookup_challenge demo_completed ''7'' demo_id) = Some COMPLETED \<and>
   map_option completion_date (lookup_challenge demo_completed ''7'' demo_id)
     = Some (Some demo_t1) \<and>
   map_option completion_date
     (lookup_challenge (fst (add_reps demo_completed ''7'' demo_id 1 demo_t2)) ''7'' demo_id)
     = Some (Some demo_t2) \<and>
   demo_t2 \<noteq> demo_t1"
  by (simp add: eval_defs)

text \<open>
  \<^bold>\<open>C10.\<close> A successful \<open>add_reps\<close> found the user and the challenge. Afterwards the
  challenge keeps its \<open>id\<close>, \<open>exercise\<close>, \<open>total_reps\<close>, \<open>target_days\<close>, \<open>daily_target\<close>,
  \<open>start_date\<close> and \<open>target_date\<close>, and every entry of \<open>daily_records\<close> except today's;
  the user's other challenges, the order of the challenges and the user's settings are
  unchanged; every other user's profile and the order of the users are unchanged.
\<close>

theorem add_reps_frame:
  assumes "add_reps s u k reps now = (s', True)"
  shows "\<exists>ud c ud' c'.
     map_of s u = Some ud \<and> map_of (challenges ud) k = Some c \<and>
     map_of s' u = Some ud' \<and> map_of (challenges ud') k = Some c' \<and>
     id' c' = id' c \<and> exercise c' = exercise c \<and> total_reps c' = total_reps c \<and>
     target_days c' = target_days c \<and> daily_target c' = daily_target c \<and>
     start_date c' = start_date c \<and> target_date c' = target_date c \<and>
     (\<forall>d. d \<noteq> date_key now \<longrightarrow> map_of (daily_records c') d = map_of (daily_records c) d) \<and>
     (\<forall>k'. k' \<noteq> k \<longrightarrow> map_of (challenges ud') k' = map_of (challenges ud) k') \<and>
     map fst (challenges ud') = map fst (challenges ud) \<and>
     timezone ud' = timezone ud \<and> reminder_times ud' = reminder_times ud \<and>
     reminders_enabled ud' = reminders_enabled ud \<and>
     (\<forall>u'. u' \<noteq> u \<longrightarrow> map_of s' u' = map_of s u') \<and>
     map fst s' = map fst s"
proof -
  from assms obtain ud c where ud: "map_of s u = Some ud"
    and c: "map_of (challenges ud) k = Some c"
    and s': "s' = set_challenge s u ud k (log_reps c reps now)"
    by (rule add_reps_True)
  let ?c' = "log_reps c reps now"
  let ?ud' = "ud\<lparr>challenges := AList.update k ?c' (challenges ud)\<rparr>"
  have k_in: "k \<in> fst ` set (challenges ud)"
    using c by (metis domI dom_map_of_conv_image_fst)
  have "map_of s' u = Some ?ud'" by (simp add: s' set_challenge_lookup)
  moreover have "map_of (challenges ?ud') k = Some ?c'" by (simp add: update_conv')
  moreover have "\<forall>d. d \<noteq> date_key now \<longrightarrow>
      map_of (daily_records ?c') d = map_of (daily_records c) d"
    by (simp add: log_reps_records)
  moreover have "\<forall>k'. k' \<noteq> k \<longrightarrow> map_of (challenges ?ud') k' = map_of (challenges ud) k'"
    by (simp add: update_conv')
  moreover have "map fst (challenges ?ud') = map fst (challenges ud)"
    using k_in by (simp add: update_keys)
  moreover have "\<forall>u'. u' \<noteq> u \<longrightarrow> map_of s' u' = map_of s u'"
    by (simp add: s' set_challenge_lookup)
  moreover have "map fst s' = map fst s"
    using ud by (simp add: s' set_challenge_keys)
  ultimately show ?thesis
    using ud c by (simp add: log_reps_fields)
qed

theorem add_reps_frame_witness:
  "\<exists>s' ud c ud' c'. add_reps (run demo_two_calls) ''7'' demo_id 61 demo_t1 = (s', True) \<and>
     map_of (run demo_two_calls) ''7'' = Some ud \<and> map_of (challenges ud) demo_id = Some c \<and>
     map_of s' ''7'' = Some ud' \<and> map_of (challenges ud') demo_id = Some c' \<and>
     total_reps c' = total_reps c \<and> target_days c' = target_days c \<and>
     daily_target c' = daily_target c \<and> start_date c' = start_date c \<and>
     target_date c' = target_date c \<and> exercise c' = exercise c \<and> id' c' = id' c \<and>
     map_of (daily_records c') (date_key demo_t0) = map_of (daily_records c) (date_key demo_t0) \<and>
     map_of (challenges ud') (SQUATS, 63929304000)
       = map_of (challenges ud) (SQUATS, 63929304000) \<and>
     map_of s' ''8'' = map_of (run demo_two_calls) ''8'' \<and>
     map fst s' = [''7'', ''8'']"
proof -
  obtain s' where s': "add_reps (run demo_two_calls) ''7'' demo_id 61 demo_t1 = (s', True)"
    unfolding demo_two_store by (simp add: step_defs)
  have ne: "date_key demo_t0 \<noteq> date_key demo_t1" "(SQUATS, 63929304000) \<noteq> demo_id"
    "''8'' \<noteq> ''7''"
    by (simp_all add: step_defs)
  have keys: "map fst (run demo_two_calls) = [''7'', ''8'']"
    unfolding demo_two_store by simp
  from add_reps_frame [OF s'] obtain ud c ud' c' where f:
    "map_of (run demo_two_calls) ''7'' = Some ud \<and> map_of (challenges ud) demo_id = Some c \<and>
     map_of s' ''7'' = Some ud' \<and> map_of (challenges ud') demo_id = Some c' \<and>
     id' c' = id' c \<and> exercise c' = exercise c \<and> total_reps c' = total_reps c \<and>
     target_days c' = target_days c \<and> daily_target c' = daily_target c \<and>
     start_date c' = start_date c \<and> target_date c' = target_date c \<and>
     (\<forall>d. d \<noteq> date_key demo_t1 \<longrightarrow>
        map_of (daily_records c') d = map_of (daily_records c) d) \<and>
     (\<forall>k'. k' \<noteq> demo_id \<longrightarrow> map_of (challenges ud') k' = map_of (challenges ud) k') \<and>
     map fst (challenges ud') = map fst (challenges ud) \<and>
     timezone ud' = timezone ud \<and> reminder_times ud' = reminder_times ud \<and>
     reminders_enabled ud' = reminders_enabled ud \<and>
     (\<forall>u'. u' \<noteq> ''7'' \<longrightarrow> map_of s' u' = map_of (run demo_two_calls) u') \<and>
     map fst s' = map fst (run demo_two_calls)"
    by (elim exE) (erule that)
  from f ne(1) have r1:
    "map_of (daily_records c') (date_key demo_t0) = map_of (daily_records c) (date_key demo_t0)"
    by simp
  from f ne(2) have r2: "map_of (challenges ud') (SQUATS, 63929304000)
       = map_of (challenges ud) (SQUATS, 63929304000)"
    by simp
  from f ne(3) have r3: "map_of s' ''8'' = map_of (run demo_two_calls) ''8''"
    by simp
  from f keys have r4: "map fst s' = [''7'', ''8'']" by simp
  have "add_reps (run demo_two_calls) ''7'' demo_id 61 demo_t1 = (s', True) \<and>
     map_of (run demo_two_calls) ''7'' = Some ud \<and> map_of (challenges ud) demo_id = Some c \<and>
     map_of s' ''7'' = Some ud' \<and> map_of (challenges ud') demo_id = Some c' \<and>
     total_reps c' = total_reps c \<and> target_days c' = target_days c \<and>
     daily_target c' = daily_target c \<and> start_date c' = start_date c \<and>
     target_date c' = target_date c \<and> exercise c' = exercise c \<and> id' c' = id' c \<and>
     map_of (daily_records c') (date_key demo_t0) = map_of (daily_records c) (date_key demo_t0) \<and>
     map_of (challenges ud') (SQUATS, 63929304000)
       = map_of (challenges ud) (SQUATS, 63929304000) \<and>
     map_of s' ''8'' = map_of (run demo_two_calls) ''8'' \<and>
     map fst s' = [''7'', ''8'']"
    by (simp only: s' f r1 r2 r3 keys simp_thms)
  then show ?thesis by (intro exI)
qed

text \<open>
  \<^bold>\<open>C8\<close>, as the code has it. Computing the progress of an existing challenge leaves the
  store as it is, and \<open>send_daily_reminders\<close> never changes the store. Every read is
  repeatable: evaluated again on the store it returned, at the same instant, it returns
  the same result and the same store. But \<open>get_challenge_progress\<close> and
  \<open>get_active_challenges\<close> go through \<open>get_user_data\<close>, so for a user without a profile
  they append the default profile to the store; that is the only change a read makes.
\<close>

theorem reads_only_create_profiles:
  "fst (get_challenge_progress s u k now)
     = (if u \<in> fst ` set s then s else s @ [(u, default_user_data)]) \<and>
   (\<forall>c. lookup_challenge s u k = Some c \<longrightarrow> fst (get_challenge_progress s u k now) = s) \<and>
   get_challenge_progress (fst (get_challenge_progress s u k now)) u k now
     = get_challenge_progress s u k now \<and>
   fst (get_active_challenges s u now)
     = (if u \<in> fst ` set s then s else s @ [(u, default_user_data)]) \<and>
   get_active_challenges (fst (get_active_challenges s u now)) u now
     = get_active_challenges s u now \<and>
   fst (send_daily_reminders s now) = s"
proof (intro conjI allI impI)
  show "fst (get_challenge_progress s u k now)
     = (if u \<in> fst ` set s then s else s @ [(u, default_user_data)])"
    by (simp add: get_challenge_progress_fst get_user_data_fst)
next
  fix c assume "lookup_challenge s u k = Some c"
  then have "u \<in> fst ` set s"
    by (auto dest!: lookup_challengeD map_of_SomeD intro: rev_image_eqI)
  then show "fst (get_challenge_progress s u k now) = s"
    by (rule get_challenge_progress_known)
next
  show "get_challenge_progress (fst (get_challenge_progress s u k now)) u k now
     = get_challenge_progress s u k now"
    by (rule get_challenge_progress_again)
next
  show "fst (get_active_challenges s u now)
     = (if u \<in> fst ` set s then s else s @ [(u, default_user_data)])"
    by (simp add: get_active_challenges_fst get_user_data_fst)
next
  show "get_active_challenges (fst (get_active_challenges s u now)) u now
     = get_active_challenges s u now"
    by (rule get_active_challenges_again)
next
  show "fst (send_daily_reminders s now) = s"
    by (rule send_daily_reminders_fst)
qed

theorem reads_only_create_profiles_witness:
  "(\<exists>c. lookup_challenge (run demo_calls) ''7'' demo_id = Some c) \<and>
   fst (get_challenge_progress (run demo_calls) ''7'' demo_id demo_t1) = run demo_calls \<and>
   fst (get_active_challenges (run demo_calls) ''7'' demo_t1) = run demo_calls \<and>
   fst (get_active_challenges (run demo_calls) ''8'' demo_t1)
     = run demo_calls @ [(''8'', default_user_data)]"
proof -
  obtain c where c: "lookup_challenge (run demo_calls) ''7'' demo_id = Some c"
    by (simp add: eval_defs)
  have m: "''7'' \<in> fst ` set (run demo_calls)" "''8'' \<notin> fst ` set (run demo_calls)"
    by (simp_all add: eval_defs)
  note a = reads_only_create_profiles
    [where s = "run demo_calls" and u = "''7''" and k = demo_id and now = demo_t1]
  note b = reads_only_create_profiles
    [where s = "run demo_calls" and u = "''8''" and k = demo_id and now = demo_t1]
  from a c have "fst (get_challenge_progress (run demo_calls) ''7'' demo_id demo_t1)
      = run demo_calls" by blast
  moreover from a m have "fst (get_active_challenges (run demo_calls) ''7'' demo_t1)
      = run demo_calls" by simp
  moreover from b m have "fst (get_active_challenges (run demo_calls) ''8'' demo_t1)
     = run demo_calls @ [(''8'', default_user_data)]" by simp
  ultimately show ?thesis using c by blast
qed

text \<open>The claim fails for \<open>get_active_challenges\<close> on an unknown user: the empty store
  gains a profile.\<close>

theorem listing_creates_profile_counterexample:
  "get_active_challenges [] ''7'' demo_t0 = ([(''7'', default_user_data)], Inr []) \<and>
   fst (get_active_challenges [] ''7'' demo_t0) \<noteq> []"
  by (simp add: get_active_challenges_def get_user_data_def default_user_data_def)

text \<open>
  \<^bold>\<open>C3.\<close> The claim asks that \<open>get_challenge_progress\<close> return a snapshot for every
  existing challenge at every instant. It does not for the slow challenge: 30 days after
  the start the average is 1/31 per day, the 99999 remaining repetitions need 3099969
  days, the projected date is beyond year 9999 and \<open>datetime.now() + timedelta(...)\<close>
  raises \<open>OverflowError\<close>, which nothing in \<open>get_challenge_progress\<close> catches.
\<close>

theorem get_challenge_progress_overflow:
  "list_all positive_call demo_slow_calls \<and>
   map_option current_reps (lookup_challenge (run demo_slow_calls) ''7'' demo_id) = Some 1 \<and>
   snd (get_challenge_progress (run demo_slow_calls) ''7'' demo_id demo_t30) = Inl OverflowError"
  by (simp add: demo_slow_store) (simp add: eval_defs progress_defs)

text \<open>
  \<^bold>\<open>C7.\<close> The claim asks for a line for each active challenge of every profile with
  reminders enabled. For the profile with the slow challenge there is none: the exception
  of \<open>get_challenge_progress\<close> leaves \<open>get_active_challenges\<close> and, raised before the
  \<open>try\<close>, \<open>send_daily_reminders\<close> itself.
\<close>

theorem send_daily_reminders_overflow:
  "snd (send_daily_reminders (run demo_slow_calls) demo_t30) = Inl OverflowError"
  by (simp add: demo_slow_store) (simp add: eval_defs progress_defs)

end
